theory Spec2Isabelle
  imports Complex_Main "HOL-Library.Sublist" "HOL-Library.AList"
begin

section \<open>MobileNetV2 feature extractor: channel rounding\<close>

text \<open>
  The development embeds \<^verbatim>\<open>src/tool/.ipynb_checkpoints/MobileNetV2-checkpoint.py\<close>.
  Python integers are \<^typ>\<open>int\<close>. Python floats (the width multiplier, the value
  handed to the rounding function, the constant \<^verbatim>\<open>0.9\<close>) are modelled as exact
  rationals \<^typ>\<open>rat\<close>: the float \<^verbatim>\<open>0.1\<close> is \<open>1/10\<close>, \<^verbatim>\<open>1.\<close> is \<open>1\<close>,
  and the rounding error of IEEE arithmetic, infinities and NaN are outside the model.
  Every exception of the source is a value of \<open>py_error\<close>; a function that can raise
  returns \<open>py_error + 'a\<close>, with \<open>Inl\<close> the exception.
\<close>

datatype py_error =
    ZeroDivisionError
  | AssertionError
  | NameError string
  | AttributeError string
  | PyException string
  | RuntimeError
  | FetchError

text \<open>Sequencing of two computations that can raise: the first exception wins.\<close>

definition and_then :: "py_error + 'a \<Rightarrow> ('a \<Rightarrow> py_error + 'b) \<Rightarrow> py_error + 'b" where
  "and_then m f = (case m of Inl e \<Rightarrow> Inl e | Inr x \<Rightarrow> f x)"

text \<open>Python's \<^verbatim>\<open>int(x)\<close> on a float truncates towards zero.\<close>

definition py_int :: "rat \<Rightarrow> int" where
  "py_int x = (if 0 \<le> x then \<lfloor>x\<rfloor> else \<lceil>x\<rceil>)"

text \<open>
  \<^verbatim>\<open>
  def _make_divisible(v, divisor, min_value=None):
      if min_value is None:
          min_value = divisor
      new_v = max(min_value, int(v + divisor / 2) // divisor * divisor)
      # Make sure that round down does not go down by more than 10%.
      if new_v < 0.9 * v:
          new_v += divisor
      return new_v
  \<close>
  \<^verbatim>\<open>//\<close> is floor division, which is \<open>div\<close> on \<^typ>\<open>int\<close>; it raises
  on a zero divisor. The leading underscore of the name is dropped.
\<close>

definition make_divisible :: "rat \<Rightarrow> int \<Rightarrow> int option \<Rightarrow> py_error + int" where
  "make_divisible v divisor min_value =
     (let min_value' = (case min_value of None \<Rightarrow> divisor | Some m \<Rightarrow> m) in
      if divisor = 0 then Inl ZeroDivisionError
      else
        let new_v = max min_value' (py_int (v + of_int divisor / 2) div divisor * divisor) in
        if of_int new_v < 9 / 10 * v then Inr (new_v + divisor) else Inr new_v)"

text \<open>
  Python's \<^verbatim>\<open>round(x)\<close> with one argument rounds to the nearest integer, a tie to the
  even neighbour.
\<close>

definition py_round :: "rat \<Rightarrow> int" where
  "py_round x =
     (let f = \<lfloor>x\<rfloor>; r = x - of_int f in
      if r < 1 / 2 then f
      else if 1 / 2 < r then f + 1
      else if even f then f else f + 1)"

section \<open>Layers and the basic conv blocks\<close>

text \<open>
  The primitives of the tensor runtime are data: a layer records the arguments of its
  constructor call, in the order of \<^verbatim>\<open>nn.Conv2d(in_channels, out_channels, kernel_size,
  stride, padding, groups=1, bias=...)\<close>. What a layer computes on a tensor, and the
  argument checks of the runtime's own constructors, belong to the runtime.
\<close>

datatype layer =
    Conv2d (c_in: int) (c_out: int) (c_kernel: int) (c_stride: int) (c_padding: int)
      (c_groups: int) (c_bias: bool)
  | BatchNorm2d (bn_features: int)
  | ReLU6 (relu_inplace: bool)

definition conv_3x3_bn :: "int \<Rightarrow> int \<Rightarrow> int \<Rightarrow> layer list" where
  "conv_3x3_bn inp oup stride =
     [Conv2d inp oup 3 stride 1 1 False, BatchNorm2d oup, ReLU6 True]"

definition conv_1x1_bn :: "int \<Rightarrow> int \<Rightarrow> layer list" where
  "conv_1x1_bn inp oup =
     [Conv2d inp oup 1 1 0 1 False, BatchNorm2d oup, ReLU6 True]"

section \<open>The inverted residual block\<close>

record InvertedResidual =
  identity :: bool
  conv :: "layer list"

text \<open>
  \<^verbatim>\<open>
  def __init__(self, inp, oup, stride, expand_ratio):
      assert stride in [1, 2]
      hidden_dim = round(inp * expand_ratio)
      self.identity = stride == 1 and inp == oup
      if expand_ratio == 1:
          self.conv = nn.Sequential(dw, bn, relu6, pw-linear, bn)
      else:
          self.conv = nn.Sequential(pw, bn, relu6, dw, bn, relu6, pw-linear, bn)
  \<close>
\<close>

definition InvertedResidual_init ::
    "int \<Rightarrow> int \<Rightarrow> int \<Rightarrow> rat \<Rightarrow> py_error + InvertedResidual" where
  "InvertedResidual_init inp oup stride expand_ratio =
     (if \<not> (stride = 1 \<or> stride = 2) then Inl AssertionError
      else
        let hidden_dim = py_round (of_int inp * expand_ratio) in
        Inr \<lparr> identity = (stride = 1 \<and> inp = oup),
              conv =
                (if expand_ratio = 1 then
                   [Conv2d hidden_dim hidden_dim 3 stride 1 hidden_dim False,
                    BatchNorm2d hidden_dim,
                    ReLU6 True,
                    Conv2d hidden_dim oup 1 1 0 1 False,
                    BatchNorm2d oup]
                 else
                   [Conv2d inp hidden_dim 1 1 0 1 False,
                    BatchNorm2d hidden_dim,
                    ReLU6 True,
                    Conv2d hidden_dim hidden_dim 3 stride 1 hidden_dim False,
                    BatchNorm2d hidden_dim,
                    ReLU6 True,
                    Conv2d hidden_dim oup 1 1 0 1 False,
                    BatchNorm2d oup]) \<rparr>)"

text \<open>
  \<^verbatim>\<open>
  def forward(self, x):
      if self.identity:
          return x + self.conv(x)
      else:
          return self.conv(x)
  \<close>
  The tensor type and the function \<open>run\<close> that applies a sequence of layers to a tensor
  are the runtime's, taken as parameters. The method reads the block and returns a tensor:
  it assigns no attribute.
\<close>

definition InvertedResidual_forward ::
    "(layer list \<Rightarrow> 't \<Rightarrow> 't) \<Rightarrow> InvertedResidual \<Rightarrow> 't::plus \<Rightarrow> 't" where
  "InvertedResidual_forward run self x =
     (if identity self then x + run (conv self) x else run (conv self) x)"

text \<open>What the layers of a constructed block say about its constructor's arguments.\<close>

fun first_in_channels :: "layer list \<Rightarrow> int option" where
  "first_in_channels [] = None"
| "first_in_channels (Conv2d i oc k s p g b # ls) = Some i"
| "first_in_channels (l # ls) = first_in_channels ls"

fun last_out_channels :: "layer list \<Rightarrow> int option" where
  "last_out_channels [] = None"
| "last_out_channels (Conv2d i oc k s p g b # ls) =
     (case last_out_channels ls of None \<Rightarrow> Some oc | Some oc' \<Rightarrow> Some oc')"
| "last_out_channels (l # ls) = last_out_channels ls"

fun spatial_stride :: "layer list \<Rightarrow> int option" where
  "spatial_stride [] = None"
| "spatial_stride (Conv2d i oc k s p g b # ls) =
     (if k = 3 then Some s else spatial_stride ls)"
| "spatial_stride (l # ls) = spatial_stride ls"

section \<open>The network assembler\<close>

datatype module = Sequential "layer list" | Block InvertedResidual

record MobileNetV2 =
  features :: "module list"
  features2 :: "module list"
  last_conv :: "layer list"

text \<open>
  A configuration row is \<^verbatim>\<open>[t, c, n, s]\<close>: expansion ratio, output channels, repeat
  count, stride. The two tables are the constants \<^verbatim>\<open>self.cfgs1\<close> and
  \<^verbatim>\<open>self.cfgs2\<close>; the field \<open>last_conv\<close> is \<^verbatim>\<open>self.conv\<close>.
\<close>

type_synonym cfg = "rat \<times> int \<times> int \<times> int"

definition cfgs1 :: "cfg list" where
  "cfgs1 = [(1, 16, 1, 1), (6, 24, 2, 2), (6, 32, 3, 2), (6, 64, 4, 2), (6, 96, 3, 1)]"

definition cfgs2 :: "cfg list" where
  "cfgs2 = [(6, 160, 3, 2), (6, 320, 1, 1)]"

text \<open>
  The inner loop
  \<^verbatim>\<open>
  for i in range(n):
      layers.append(block(input_channel, output_channel, s if i == 0 else 1, t))
      input_channel = output_channel
  \<close>
  over the indices still to visit, on the pair of \<^verbatim>\<open>layers\<close> and
  \<^verbatim>\<open>input_channel\<close>. An exception of the block's constructor ends the loop.
\<close>

fun repeat_loop ::
    "int \<Rightarrow> rat \<Rightarrow> int \<Rightarrow> nat list \<Rightarrow> module list \<times> int \<Rightarrow> py_error + module list \<times> int" where
  "repeat_loop output_channel t s [] (layers, input_channel) = Inr (layers, input_channel)"
| "repeat_loop output_channel t s (i # is) (layers, input_channel) =
     (case InvertedResidual_init input_channel output_channel (if i = 0 then s else 1) t of
        Inl e \<Rightarrow> Inl e
      | Inr b \<Rightarrow> repeat_loop output_channel t s is (layers @ [Block b], output_channel))"

text \<open>
  The outer loop
  \<^verbatim>\<open>
  for t, c, n, s in cfgs:
      output_channel = _make_divisible(c * width_mult, 4 if width_mult == 0.1 else 8)
      for i in range(n): ...
  \<close>
  \<^verbatim>\<open>range(n)\<close> is empty for \<open>n \<le> 0\<close>.
\<close>

fun cfg_loop ::
    "rat \<Rightarrow> cfg list \<Rightarrow> module list \<times> int \<Rightarrow> py_error + module list \<times> int" where
  "cfg_loop width_mult [] st = Inr st"
| "cfg_loop width_mult ((t, c, n, s) # rows) st =
     (case make_divisible (of_int c * width_mult) (if width_mult = 1 / 10 then 4 else 8) None of
        Inl e \<Rightarrow> Inl e
      | Inr output_channel \<Rightarrow>
          (case repeat_loop output_channel t s [0..<nat n] st of
             Inl e \<Rightarrow> Inl e
           | Inr st' \<Rightarrow> cfg_loop width_mult rows st'))"

text \<open>
  \<^verbatim>\<open>MobileNetV2.__init__(self, num_classes=1000, width_mult=1.)\<close>. The method first
  binds the two tables and then assembles the network from them; \<open>MobileNetV2_assemble\<close>
  is the method's body after the two assignments, with the tables it reads as arguments.
  The call \<^verbatim>\<open>self._initialize_weights()\<close> draws the parameters' values; it changes no
  layer and no channel count, and the values live in the parameter store of the loader
  below.
\<close>

definition MobileNetV2_assemble ::
    "cfg list \<Rightarrow> cfg list \<Rightarrow> int \<Rightarrow> rat \<Rightarrow> py_error + MobileNetV2" where
  "MobileNetV2_assemble self_cfgs1 self_cfgs2 num_classes width_mult =
     and_then (make_divisible (32 * width_mult) (if width_mult = 1 / 10 then 4 else 8) None)
       (\<lambda>input_channel.
     and_then (cfg_loop width_mult self_cfgs1
                 ([Sequential (conv_3x3_bn 3 input_channel 2)], input_channel))
       (\<lambda>(layers, input_channel).
     and_then (cfg_loop width_mult self_cfgs2 ([], input_channel))
       (\<lambda>(layers2, input_channel).
     and_then (if 1 < width_mult
               then make_divisible (1280 * width_mult) (if width_mult = 1 / 10 then 4 else 8) None
               else Inr 1280)
       (\<lambda>output_channel.
     Inr \<lparr> features = layers, features2 = layers2,
           last_conv = conv_1x1_bn input_channel output_channel \<rparr>))))"

definition MobileNetV2_init :: "int \<Rightarrow> rat \<Rightarrow> py_error + MobileNetV2" where
  "MobileNetV2_init num_classes width_mult =
     MobileNetV2_assemble cfgs1 cfgs2 num_classes width_mult"

text \<open>
  \<^verbatim>\<open>
  def forward(self, x):
      x1 = self.features(x)
      x2 = self.features2(x1)
      x2 = self.conv(x2)
      return x1, x2
  \<close>
\<close>

fun run_module :: "(layer list \<Rightarrow> 't \<Rightarrow> 't) \<Rightarrow> module \<Rightarrow> 't::plus \<Rightarrow> 't" where
  "run_module run (Sequential ls) x = run ls x"
| "run_module run (Block b) x = InvertedResidual_forward run b x"

definition MobileNetV2_forward ::
    "(layer list \<Rightarrow> 't \<Rightarrow> 't) \<Rightarrow> MobileNetV2 \<Rightarrow> 't::plus \<Rightarrow> 't \<times> 't" where
  "MobileNetV2_forward run self x =
     (let x1 = fold (run_module run) (features self) x;
          x2 = fold (run_module run) (features2 self) x1;
          x2 = run (last_conv self) x2
      in (x1, x2))"

text \<open>The inverted residual blocks of a module sequence, in order.\<close>

fun blocks_of :: "module list \<Rightarrow> InvertedResidual list" where
  "blocks_of [] = []"
| "blocks_of (Block b # ms) = b # blocks_of ms"
| "blocks_of (Sequential ls # ms) = blocks_of ms"

section \<open>The pretrained loader\<close>

text \<open>
  Python's \<^verbatim>\<open>s.replace(old, new)\<close>: every occurrence of \<open>old\<close> in \<open>s\<close>, found from
  left to right without overlap, becomes \<open>new\<close>. (With an empty \<open>old\<close>, \<open>new\<close> is put
  before every character and at the end.)
\<close>

fun str_replace :: "string \<Rightarrow> string \<Rightarrow> string \<Rightarrow> string" where
  "str_replace old new [] = (if old = [] then new else [])"
| "str_replace old new (c # cs) =
     (if old = [] then new @ c # str_replace old new cs
      else if prefix old (c # cs)
        then new @ str_replace old new (drop (length old) (c # cs))
        else c # str_replace old new cs)"

text \<open>\<^verbatim>\<open>n1 = k1.replace('module.', '')\<close>\<close>

definition strip_module :: "string \<Rightarrow> string" where
  "strip_module k1 = str_replace ''module.'' [] k1"

text \<open>
  \<^verbatim>\<open>
  n2 = k2.replace('features2.0.', 'features.14.')
  n2 = n2.replace('features2.1.', 'features.15.')
  n2 = n2.replace('features2.2.', 'features.16.')
  n2 = n2.replace('features2.3.', 'features.17.')
  \<close>
\<close>

definition remap_key :: "string \<Rightarrow> string" where
  "remap_key k2 =
     (let n2 = str_replace ''features2.0.'' ''features.14.'' k2;
          n2 = str_replace ''features2.1.'' ''features.15.'' n2;
          n2 = str_replace ''features2.2.'' ''features.16.'' n2;
          n2 = str_replace ''features2.3.'' ''features.17.'' n2
      in n2)"

text \<open>
  A state dict is an ordered dictionary from parameter names to tensors: an association
  list whose keys are distinct. The tensor type \<open>'v\<close> is the runtime's. The inner loop
  \<^verbatim>\<open>
  for k2, v2 in model_dict.items():
      n2 = ...
      if n1 == n2:
          model_dict[k2] = v1
  \<close>
  runs over the items still to visit; the assignment stores under a key the dictionary
  already has.
\<close>

fun inner_loop ::
    "string \<Rightarrow> 'v \<Rightarrow> (string \<times> 'v) list \<Rightarrow> (string \<times> 'v) list \<Rightarrow> (string \<times> 'v) list" where
  "inner_loop n1 v1 [] model_dict = model_dict"
| "inner_loop n1 v1 ((k2, v2) # items) model_dict =
     inner_loop n1 v1 items
       (if n1 = remap_key k2 then AList.update k2 v1 model_dict else model_dict)"

text \<open>
  \<^verbatim>\<open>
  for k1, v1 in checkpoint.items():
      n1 = k1.replace('module.', '')
      for k2, v2 in model_dict.items(): ...
  \<close>
\<close>

fun outer_loop :: "(string \<times> 'v) list \<Rightarrow> (string \<times> 'v) list \<Rightarrow> (string \<times> 'v) list" where
  "outer_loop [] model_dict = model_dict"
| "outer_loop ((k1, v1) # checkpoint) model_dict =
     outer_loop checkpoint (inner_loop (strip_module k1) v1 model_dict model_dict)"

text \<open>
  \<^verbatim>\<open>model.load_state_dict(model_dict)\<close> of the runtime, in its default strict mode: it
  raises when a parameter of the model has no entry, when an entry names no parameter, or
  when an entry's tensor has another shape than the parameter; otherwise every parameter
  takes the value of its entry. \<open>shape\<close> is the runtime's, \<open>params\<close> the model's
  parameters before the call.
\<close>

definition load_state_dict ::
    "('v \<Rightarrow> nat list) \<Rightarrow> (string \<times> 'v) list \<Rightarrow> (string \<times> 'v) list \<Rightarrow> py_error + (string \<times> 'v) list" where
  "load_state_dict shape params state_dict =
     (if list_all (\<lambda>(k, p). case map_of state_dict k of
                               None \<Rightarrow> False
                             | Some v \<Rightarrow> shape v = shape p) params
         \<and> list_all (\<lambda>(k, v). k \<in> set (map fst params)) state_dict
      then Inr (map (\<lambda>(k, p). (k, case map_of state_dict k of None \<Rightarrow> p | Some v \<Rightarrow> v)) params)
      else Inl RuntimeError)"

record mnv2_model =
  pretrained :: "string option"

text \<open>\<^verbatim>\<open>mnv2_model.__init__(self, pretrained)\<close>\<close>

definition mnv2_model_init :: "string option \<Rightarrow> mnv2_model" where
  "mnv2_model_init p = \<lparr> pretrained = p \<rparr>"

text \<open>
  Reading a name that the function does not assign: Python looks it up in the module's
  global scope and then among the builtins, and raises \<^verbatim>\<open>NameError\<close> when neither
  binds it. A scope maps a bound name to the text \<^verbatim>\<open>str\<close> gives for its value.
\<close>

definition lookup_global :: "(string \<rightharpoonup> string) \<Rightarrow> string \<Rightarrow> py_error + string" where
  "lookup_global scope name =
     (case scope name of None \<Rightarrow> Inl (NameError name) | Some v \<Rightarrow> Inr v)"

text \<open>
  The names the file binds at its top level (imports, functions, classes). No builtin is
  called \<^verbatim>\<open>pretrained\<close>.
\<close>

definition file_globals :: "string \<rightharpoonup> string" where
  "file_globals = map_of
     [(''nn'', ''<module torch.nn>''),
      (''math'', ''<module math>''),
      (''torch'', ''<module torch>''),
      (''__all__'', ''[mobilenetv2]''),
      (''load_state_dict_from_url'', ''<function load_state_dict_from_url>''),
      (''_make_divisible'', ''<function _make_divisible>''),
      (''conv_3x3_bn'', ''<function conv_3x3_bn>''),
      (''conv_1x1_bn'', ''<function conv_1x1_bn>''),
      (''InvertedResidual'', ''<class InvertedResidual>''),
      (''MobileNetV2'', ''<class MobileNetV2>''),
      (''mnv2_model'', ''<class mnv2_model>'')]"

text \<open>
  \<^verbatim>\<open>
  def mobilenetv2(self, **kwargs):
      model = MobileNetV2()
      if self.pretrained:
          model_dict = model.state_dict()
          checkpoint = load_state_dict_from_url(self.pretrained, progress=True)
          for k1, v1 in checkpoint.items(): ...
          model.load_state_dict(model_dict)
      else:
          raise Exception("darknet request a pretrained path. got [{}]".format(pretrained))
      return model
  \<close>
  \<^verbatim>\<open>self.pretrained\<close> is true when it is a string that is not empty. The method has no
  parameter and no local variable \<^verbatim>\<open>pretrained\<close>, so the argument of \<^verbatim>\<open>format\<close>
  is a global name, looked up in \<open>scope\<close> before the exception object is made. The fetch
  \<open>load_url\<close> (\<^verbatim>\<open>load_state_dict_from_url\<close>) is the runtime's and can raise;
  \<open>state_dict0\<close> holds the values the initializer gave the parameters of the new model.
  The result is the model with its parameters.
\<close>

definition mobilenetv2 ::
    "(string \<rightharpoonup> string) \<Rightarrow> (string \<Rightarrow> py_error + (string \<times> 'v) list) \<Rightarrow> ('v \<Rightarrow> nat list) \<Rightarrow>
     (string \<times> 'v) list \<Rightarrow> mnv2_model \<Rightarrow> py_error + MobileNetV2 \<times> (string \<times> 'v) list" where
  "mobilenetv2 scope load_url shape state_dict0 self =
     and_then (MobileNetV2_init 1000 1)
       (\<lambda>model.
          case pretrained self of
            Some (c # cs) \<Rightarrow>
              (let model_dict = state_dict0 in
               and_then (load_url (c # cs))
                 (\<lambda>checkpoint.
                    let model_dict = outer_loop checkpoint model_dict in
                    and_then (load_state_dict shape state_dict0 model_dict)
                      (\<lambda>params. Inr (model, params))))
          | _ \<Rightarrow>
              and_then (lookup_global scope ''pretrained'')
                (\<lambda>v. Inl (PyException
                   (''darknet request a pretrained path. got ['' @ v @ '']''))))"

text \<open>
  The class statements of the file, in order:
  \<^verbatim>\<open>class InvertedResidual(nn.Module)\<close>, \<^verbatim>\<open>class MobileNetV2(nn.Module)\<close>,
  \<^verbatim>\<open>class mnv2_model(nn.module)\<close>. Executing a class statement evaluates its base
  expression first, an attribute lookup in the namespace \<open>nn\<close> of \<^verbatim>\<open>torch.nn\<close>,
  which raises \<^verbatim>\<open>AttributeError\<close> when the namespace has no such attribute. The
  namespace is the runtime library's and is a parameter.
\<close>

definition getattr_nn :: "(string \<rightharpoonup> 'c) \<Rightarrow> string \<Rightarrow> py_error + 'c" where
  "getattr_nn nn name = (case nn name of None \<Rightarrow> Inl (AttributeError name) | Some c \<Rightarrow> Inr c)"

definition class_statements :: "(string \<rightharpoonup> 'c) \<Rightarrow> py_error + unit" where
  "class_statements nn =
     and_then (getattr_nn nn ''Module'') (\<lambda>InvertedResidual_base.
     and_then (getattr_nn nn ''Module'') (\<lambda>MobileNetV2_base.
     and_then (getattr_nn nn ''module'') (\<lambda>mnv2_model_base.
     Inr ())))"

text \<open>
  Using the pretrained loading path: the file is executed, then
  \<^verbatim>\<open>mnv2_model(p).mobilenetv2()\<close> is called.
\<close>

definition pretrained_loading_path ::
    "(string \<rightharpoonup> 'c) \<Rightarrow> (string \<rightharpoonup> string) \<Rightarrow> (string \<Rightarrow> py_error + (string \<times> 'v) list) \<Rightarrow>
     ('v \<Rightarrow> nat list) \<Rightarrow> (string \<times> 'v) list \<Rightarrow> string option \<Rightarrow>
     py_error + MobileNetV2 \<times> (string \<times> 'v) list" where
  "pretrained_loading_path nn scope load_url shape state_dict0 p =
     and_then (class_statements nn)
       (\<lambda>u. mobilenetv2 scope load_url shape state_dict0 (mnv2_model_init p))"

section \<open>Observations used in the statements\<close>

text \<open>
  The value \<^verbatim>\<open>_make_divisible(v, d)\<close> returns (\<open>0\<close> stands for a raise, which needs
  \<open>d = 0\<close>).
\<close>

definition rounded :: "rat \<Rightarrow> int \<Rightarrow> int" where
  "rounded v d = (case make_divisible v d None of Inr r \<Rightarrow> r | Inl e \<Rightarrow> 0)"

text \<open>The stride and the output channel count of a block, read from its layers.\<close>

definition observe :: "InvertedResidual \<Rightarrow> int option \<times> int option" where
  "observe b = (spatial_stride (conv b), last_out_channels (conv b))"

text \<open>
  \<open>threaded ic bs\<close>: the first block of \<open>bs\<close> takes \<open>ic\<close> input channels and every later
  block takes as many input channels as the block before it puts out.
  \<open>final_channel ic bs\<close> is the output channel count after the last block.
\<close>

fun threaded :: "int \<Rightarrow> InvertedResidual list \<Rightarrow> bool" where
  "threaded ic [] = True"
| "threaded ic (b # bs) =
     (first_in_channels (conv b) = Some ic \<and>
      (case last_out_channels (conv b) of None \<Rightarrow> False | Some oc \<Rightarrow> threaded oc bs))"

fun final_channel :: "int \<Rightarrow> InvertedResidual list \<Rightarrow> int" where
  "final_channel ic [] = ic"
| "final_channel ic (b # bs) =
     (case last_out_channels (conv b) of None \<Rightarrow> ic | Some oc \<Rightarrow> final_channel oc bs)"

text \<open>
  What the specification says a configuration row \<open>(t, c, n, s)\<close> contributes: \<open>n\<close>
  blocks, the first with stride \<open>s\<close> and the others with stride 1, each with the row's
  rounded output channel count.
\<close>

definition spec_row :: "rat \<Rightarrow> cfg \<Rightarrow> (int option \<times> int option) list" where
  "spec_row wm = (\<lambda>(t, c, n, s).
     map (\<lambda>i. (Some (if i = 0 then s else 1),
                Some (rounded (of_int c * wm) (if wm = 1 / 10 then 4 else 8)))) [0..<nat n])"

text \<open>A row the block constructor accepts: no block is built, or the stride is 1 or 2.\<close>

definition row_ok :: "cfg \<Rightarrow> bool" where
  "row_ok = (\<lambda>(t, c, n, s). n \<le> 0 \<or> s = 1 \<or> s = 2)"

text \<open>
  The channel counts of a network: the stem's output, the output of every block of both
  stages in order, and the final projection's output.
\<close>

definition stem_channels :: "MobileNetV2 \<Rightarrow> int option" where
  "stem_channels net =
     (case features net of Sequential ls # ms \<Rightarrow> last_out_channels ls | _ \<Rightarrow> None)"

definition net_channels :: "MobileNetV2 \<Rightarrow> int option \<times> int option list \<times> int option" where
  "net_channels net =
     (stem_channels net,
      map (\<lambda>b. last_out_channels (conv b)) (blocks_of (features net) @ blocks_of (features2 net)),
      last_out_channels (last_conv net))"

definition block_count :: "MobileNetV2 \<Rightarrow> nat" where
  "block_count net = length (blocks_of (features net)) + length (blocks_of (features2 net))"

text \<open>
  The channel counts the specification gives when every rounding call uses the divisor
  \<open>d\<close>.
\<close>

definition spec_channels :: "int \<Rightarrow> rat \<Rightarrow> int option \<times> int option list \<times> int option" where
  "spec_channels d wm =
     (Some (rounded (32 * wm) d),
      concat (map (\<lambda>(t, c, n, s). replicate (nat n) (Some (rounded (of_int c * wm) d)))
                (cfgs1 @ cfgs2)),
      Some (if 1 < wm then rounded (1280 * wm) d else 1280))"



section \<open>Properties of channel rounding\<close>




section \<open>Properties of the inverted residual block\<close>

lemma py_round_of_int: "py_round (of_int i) = i"
  by (simp add: py_round_def)

lemma make_divisible_total:
  "d \<noteq> 0 \<Longrightarrow> make_divisible v d None = Inr (rounded v d)"
  by (simp add: rounded_def make_divisible_def Let_def)

lemma InvertedResidual_init_bad_stride:
  "\<not> (s = 1 \<or> s = 2) \<Longrightarrow> InvertedResidual_init i oc s t = Inl AssertionError"
  by (simp add: InvertedResidual_init_def)

lemma InvertedResidual_init_ok:
  assumes "s = 1 \<or> s = 2"
  shows "\<exists>b. InvertedResidual_init i oc s t = Inr b \<and> identity b = (s = 1 \<and> i = oc) \<and>
    first_in_channels (conv b) = Some i \<and> last_out_channels (conv b) = Some oc \<and>
    spatial_stride (conv b) = Some s"
  using assms by (auto simp: InvertedResidual_init_def Let_def py_round_of_int)

section \<open>Properties of the assembler's loops\<close>

lemma threaded_append:
  "threaded ic (xs @ ys) = (threaded ic xs \<and> threaded (final_channel ic xs) ys)"
  by (induction xs arbitrary: ic) (auto split: option.splits)

lemma final_channel_append:
  "threaded ic xs \<Longrightarrow> final_channel ic (xs @ ys) = final_channel (final_channel ic xs) ys"
  by (induction xs arbitrary: ic) (auto split: option.splits)

lemma blocks_of_map_Block: "blocks_of (map Block bs) = bs"
  by (induction bs) auto

lemma repeat_loop_ok:
  assumes "js = [] \<or> s = 1 \<or> s = 2"
  shows "\<exists>bs. repeat_loop oc t s js (layers, ic) = Inr (layers @ map Block bs, final_channel ic bs) \<and>
     map observe bs = map (\<lambda>i. (Some (if i = 0 then s else 1), Some oc)) js \<and> threaded ic bs"
  using assms
proof (induction js arbitrary: layers ic)
  case Nil
  show ?case by simp
next
  case (Cons j js)
  then have s: "s = 1 \<or> s = 2" by simp
  then have "(if j = 0 then s else 1) = 1 \<or> (if j = 0 then s else 1) = 2" by simp
  from InvertedResidual_init_ok [OF this, of ic oc t]
  obtain b where b: "InvertedResidual_init ic oc (if j = 0 then s else 1) t = Inr b"
    "first_in_channels (conv b) = Some ic" "last_out_channels (conv b) = Some oc"
    "spatial_stride (conv b) = Some (if j = 0 then s else 1)" by blast
  have "js = [] \<or> s = 1 \<or> s = 2" using s by simp
  from Cons.IH [OF this, of "layers @ [Block b]" oc]
  obtain bs where bs: "repeat_loop oc t s js (layers @ [Block b], oc) =
      Inr ((layers @ [Block b]) @ map Block bs, final_channel oc bs)"
    "map observe bs = map (\<lambda>i. (Some (if i = 0 then s else 1), Some oc)) js" "threaded oc bs"
    by blast
  have "repeat_loop oc t s (j # js) (layers, ic) =
      Inr (layers @ map Block (b # bs), final_channel ic (b # bs))"
    using b bs by simp
  moreover have "map observe (b # bs) = map (\<lambda>i. (Some (if i = 0 then s else 1), Some oc)) (j # js)"
    using b bs by (simp add: observe_def)
  moreover have "threaded ic (b # bs)" using b bs by simp
  ultimately show ?case by blast
qed

lemma repeat_loop_bad_stride:
  assumes "\<not> (s = 1 \<or> s = 2)" and "0 < n"
  shows "repeat_loop oc t s [0..<nat n] st = Inl AssertionError"
proof -
  obtain layers ic where st: "st = (layers, ic)" by (cases st)
  have "[0..<nat n] = 0 # [1..<nat n]" using assms(2) by (simp add: upt_conv_Cons)
  then show ?thesis
    using assms(1) by (simp add: st InvertedResidual_init_bad_stride)
qed

lemma cfg_loop_ok:
  assumes "list_all row_ok rows"
  shows "\<exists>bs. cfg_loop wm rows (layers, ic) = Inr (layers @ map Block bs, final_channel ic bs) \<and>
     map observe bs = concat (map (spec_row wm) rows) \<and> threaded ic bs"
  using assms
proof (induction rows arbitrary: layers ic)
  case Nil
  show ?case by simp
next
  case (Cons row rows)
  obtain t c n s where row: "row = (t, c, n, s)" by (cases row) auto
  define d :: int where "d = (if wm = 1 / 10 then 4 else 8)"
  define oc where "oc = rounded (of_int c * wm) d"
  have d0: "d \<noteq> 0" by (simp add: d_def)
  have s: "[0..<nat n] = [] \<or> s = 1 \<or> s = 2" using Cons.prems row by (auto simp: row_ok_def)
  have md: "make_divisible (of_int c * wm) (if wm = 1 / 10 then 4 else 8) None = Inr oc"
    using make_divisible_total [OF d0] by (simp add: oc_def d_def)
  from repeat_loop_ok [OF s, of oc t layers ic]
  obtain bs1 where bs1: "repeat_loop oc t s [0..<nat n] (layers, ic) =
       Inr (layers @ map Block bs1, final_channel ic bs1)"
    "map observe bs1 = map (\<lambda>i. (Some (if i = 0 then s else 1), Some oc)) [0..<nat n]"
    "threaded ic bs1" by blast
  have "list_all row_ok rows" using Cons.prems by simp
  from Cons.IH [OF this, of "layers @ map Block bs1" "final_channel ic bs1"]
  obtain bs2 where bs2: "cfg_loop wm rows (layers @ map Block bs1, final_channel ic bs1) =
       Inr ((layers @ map Block bs1) @ map Block bs2, final_channel (final_channel ic bs1) bs2)"
    "map observe bs2 = concat (map (spec_row wm) rows)"
    "threaded (final_channel ic bs1) bs2" by blast
  have "cfg_loop wm (row # rows) (layers, ic) =
      Inr (layers @ map Block (bs1 @ bs2), final_channel ic (bs1 @ bs2))"
    using md bs1 bs2 by (simp add: row final_channel_append)
  moreover have "map observe (bs1 @ bs2) = concat (map (spec_row wm) (row # rows))"
    using bs1 bs2 by (simp add: row spec_row_def oc_def d_def)
  moreover have "threaded ic (bs1 @ bs2)"
    using bs1 bs2 by (simp add: threaded_append)
  ultimately show ?case by blast
qed

lemma cfg_loop_bad_row:
  assumes "\<not> list_all row_ok rows"
  shows "cfg_loop wm rows st = Inl AssertionError"
  using assms
proof (induction rows arbitrary: st)
  case Nil
  then show ?case by simp
next
  case (Cons row rows)
  obtain t c n s where row: "row = (t, c, n, s)" by (cases row) auto
  obtain layers ic where st: "st = (layers, ic)" by (cases st)
  define oc where "oc = rounded (of_int c * wm) (if wm = 1 / 10 then 4 else 8)"
  have md: "make_divisible (of_int c * wm) (if wm = 1 / 10 then 4 else 8) None = Inr oc"
    using make_divisible_total [of "if wm = 1 / 10 then 4 else 8" "of_int c * wm"]
    by (simp add: oc_def)
  show ?case
  proof (cases "row_ok row")
    case False
    then have "\<not> (s = 1 \<or> s = 2)" and "0 < n" by (auto simp: row row_ok_def)
    then have "repeat_loop oc t s [0..<nat n] st = Inl AssertionError"
      by (rule repeat_loop_bad_stride)
    then show ?thesis using md by (simp add: row)
  next
    case True
    then have s: "[0..<nat n] = [] \<or> s = 1 \<or> s = 2" by (auto simp: row row_ok_def)
    from repeat_loop_ok [OF s, of oc t layers ic]
    obtain st' where st': "repeat_loop oc t s [0..<nat n] st = Inr st'" using st by blast
    have "\<not> list_all row_ok rows" using Cons.prems True by simp
    then have "cfg_loop wm rows st' = Inl AssertionError" by (rule Cons.IH)
    then show ?thesis using md st' by (simp add: row)
  qed
qed

section \<open>The shape of the assembled network\<close>

lemma MobileNetV2_assemble_ok:
  assumes "list_all row_ok tbl1" and "list_all row_ok tbl2"
    and d_def: "d = (if wm = 1 / 10 then 4 else 8)"
  shows "\<exists>bs1 bs2. MobileNetV2_assemble tbl1 tbl2 nc wm =
       Inr \<lparr> features = Sequential (conv_3x3_bn 3 (rounded (32 * wm) d) 2) # map Block bs1,
             features2 = map Block bs2,
             last_conv = conv_1x1_bn (final_channel (rounded (32 * wm) d) (bs1 @ bs2))
                           (if 1 < wm then rounded (1280 * wm) d else 1280) \<rparr> \<and>
     map observe bs1 = concat (map (spec_row wm) tbl1) \<and>
     map observe bs2 = concat (map (spec_row wm) tbl2) \<and>
     threaded (rounded (32 * wm) d) (bs1 @ bs2)"
proof -
  define stem where "stem = rounded (32 * wm) d"
  have dd: "(if wm = 1 / 10 then 4 else 8) = d" by (simp add: d_def)
  have d0: "d \<noteq> 0" by (simp add: d_def)
  have md_stem: "make_divisible (32 * wm) d None = Inr stem"
    using make_divisible_total [OF d0] by (simp add: stem_def)
  have md_last: "make_divisible (1280 * wm) d None = Inr (rounded (1280 * wm) d)"
    using d0 by (rule make_divisible_total)
  from cfg_loop_ok [OF assms(1), of wm "[Sequential (conv_3x3_bn 3 stem 2)]" stem]
  obtain bs1 where bs1: "cfg_loop wm tbl1 ([Sequential (conv_3x3_bn 3 stem 2)], stem) =
       Inr ([Sequential (conv_3x3_bn 3 stem 2)] @ map Block bs1, final_channel stem bs1)"
    "map observe bs1 = concat (map (spec_row wm) tbl1)" "threaded stem bs1" by blast
  from cfg_loop_ok [OF assms(2), of wm "[]" "final_channel stem bs1"]
  obtain bs2 where bs2: "cfg_loop wm tbl2 ([], final_channel stem bs1) =
       Inr ([] @ map Block bs2, final_channel (final_channel stem bs1) bs2)"
    "map observe bs2 = concat (map (spec_row wm) tbl2)"
    "threaded (final_channel stem bs1) bs2" by blast
  have fin: "final_channel stem (bs1 @ bs2) = final_channel (final_channel stem bs1) bs2"
    using bs1(3) by (rule final_channel_append)
  have "MobileNetV2_assemble tbl1 tbl2 nc wm =
       Inr \<lparr> features = Sequential (conv_3x3_bn 3 stem 2) # map Block bs1,
             features2 = map Block bs2,
             last_conv = conv_1x1_bn (final_channel stem (bs1 @ bs2))
                           (if 1 < wm then rounded (1280 * wm) d else 1280) \<rparr>"
    unfolding MobileNetV2_assemble_def dd
    by (simp add: md_stem md_last bs1(1) bs2(1) fin and_then_def)
  moreover have "threaded stem (bs1 @ bs2)"
    using bs1(3) bs2(3) by (simp add: threaded_append)
  ultimately show ?thesis using bs1(2) bs2(2) unfolding stem_def by blast
qed

lemma MobileNetV2_assemble_bad_row:
  assumes "\<not> list_all row_ok (tbl1 @ tbl2)"
  shows "MobileNetV2_assemble tbl1 tbl2 nc wm = Inl AssertionError"
proof -
  define d :: int where "d = (if wm = 1 / 10 then 4 else 8)"
  define stem where "stem = rounded (32 * wm) d"
  have dd: "(if wm = 1 / 10 then 4 else 8) = d" by (simp add: d_def)
  have d0: "d \<noteq> 0" by (simp add: d_def)
  have md_stem: "make_divisible (32 * wm) d None = Inr stem"
    using make_divisible_total [OF d0] by (simp add: stem_def)
  show ?thesis
  proof (cases "list_all row_ok tbl1")
    case False
    then have "cfg_loop wm tbl1 ([Sequential (conv_3x3_bn 3 stem 2)], stem) = Inl AssertionError"
      by (rule cfg_loop_bad_row)
    then show ?thesis
      unfolding MobileNetV2_assemble_def dd by (simp add: md_stem and_then_def)
  next
    case True
    from cfg_loop_ok [OF True, of wm "[Sequential (conv_3x3_bn 3 stem 2)]" stem]
    obtain bs1 where bs1: "cfg_loop wm tbl1 ([Sequential (conv_3x3_bn 3 stem 2)], stem) =
       Inr ([Sequential (conv_3x3_bn 3 stem 2)] @ map Block bs1, final_channel stem bs1)" by blast
    have "\<not> list_all row_ok tbl2" using assms True by simp
    then have "cfg_loop wm tbl2 ([], final_channel stem bs1) = Inl AssertionError"
      by (rule cfg_loop_bad_row)
    then show ?thesis
      unfolding MobileNetV2_assemble_def dd by (simp add: md_stem bs1 and_then_def)
  qed
qed

lemma cfgs_row_ok: "list_all row_ok cfgs1" "list_all row_ok cfgs2"
  by (simp_all add: cfgs1_def cfgs2_def row_ok_def)

lemma MobileNetV2_init_shape:
  "\<exists>bs1 bs2. MobileNetV2_init nc wm =
       Inr \<lparr> features = Sequential (conv_3x3_bn 3 (rounded (32 * wm) (if wm = 1 / 10 then 4 else 8)) 2)
                          # map Block bs1,
             features2 = map Block bs2,
             last_conv = conv_1x1_bn
                (final_channel (rounded (32 * wm) (if wm = 1 / 10 then 4 else 8)) (bs1 @ bs2))
                (if 1 < wm then rounded (1280 * wm) (if wm = 1 / 10 then 4 else 8) else 1280) \<rparr> \<and>
     map observe bs1 = concat (map (spec_row wm) cfgs1) \<and>
     map observe bs2 = concat (map (spec_row wm) cfgs2) \<and>
     threaded (rounded (32 * wm) (if wm = 1 / 10 then 4 else 8)) (bs1 @ bs2)"
  unfolding MobileNetV2_init_def
  using MobileNetV2_assemble_ok [OF cfgs_row_ok refl, of nc wm] by simp

lemma MobileNetV2_init_total: "\<exists>net. MobileNetV2_init nc wm = Inr net"
  using MobileNetV2_init_shape [of nc wm] by blast

section \<open>Claims about the block and the assembler\<close>

lemma observe_snd: "map (\<lambda>b. last_out_channels (conv b)) bs = map snd (map observe bs)"
  by (simp add: observe_def)

lemma spec_row_snd:
  "map snd (concat (map (spec_row wm) rows)) =
   concat (map (\<lambda>(t, c, n, s). replicate (nat n)
      (Some (rounded (of_int c * wm) (if wm = 1 / 10 then 4 else 8)))) rows)"
proof (induction rows)
  case Nil
  show ?case by simp
next
  case (Cons row rows)
  obtain t c n s where row: "row = (t, c, n, s)" by (cases row) auto
  have "map snd (spec_row wm row) =
      replicate (nat n) (Some (rounded (of_int c * wm) (if wm = 1 / 10 then 4 else 8)))"
    by (simp add: row spec_row_def map_replicate_const comp_def)
  then show ?case using Cons.IH by (simp add: row)
qed

lemma length_spec_rows:
  "int (length (concat (map (spec_row wm) rows))) =
   sum_list (map (\<lambda>(t, c, n, s). max 0 n) rows)"
proof (induction rows)
  case Nil
  show ?case by simp
next
  case (Cons row rows)
  obtain t c n s where row: "row = (t, c, n, s)" by (cases row) auto
  have "int (length (spec_row wm row)) = max 0 n" by (simp add: row spec_row_def)
  then show ?case using Cons.IH by (simp add: row)
qed

text \<open>
  C2. For every inverted residual block constructed with input channels \<open>inp\<close>, output
  channels \<open>oup\<close>, a stride and an expansion ratio \<open>t\<close>, the identity flag is set if and
  only if the stride is 1 and \<open>inp = oup\<close>; the forward computation, which only reads the
  flag, adds the input to the transformed input exactly when the flag is set and returns
  the transformed input alone otherwise.
\<close>

theorem InvertedResidual_identity_flag:
  assumes "InvertedResidual_init inp oup stride t = Inr b"
  shows "identity b = (stride = 1 \<and> inp = oup) \<and>
    InvertedResidual_forward run b x =
       (if stride = 1 \<and> inp = oup then x + run (conv b) x else run (conv b) x)"
proof -
  have "identity b = (stride = 1 \<and> inp = oup)"
    using assms by (auto simp: InvertedResidual_init_def Let_def split: if_splits)
  then show ?thesis by (simp add: InvertedResidual_forward_def)
qed

theorem InvertedResidual_identity_flag_witness:
  "InvertedResidual_init 16 16 1 1 =
     Inr \<lparr> identity = True,
           conv = [Conv2d 16 16 3 1 1 16 False, BatchNorm2d 16, ReLU6 True,
                   Conv2d 16 16 1 1 0 1 False, BatchNorm2d 16] \<rparr> \<and>
   InvertedResidual_forward (\<lambda>ls x. 2 * x)
     \<lparr> identity = True,
       conv = [Conv2d 16 16 3 1 1 16 False, BatchNorm2d 16, ReLU6 True,
               Conv2d 16 16 1 1 0 1 False, BatchNorm2d 16] \<rparr> (5 :: int) = 15"
proof -
  have c: "InvertedResidual_init 16 16 1 1 =
     Inr \<lparr> identity = True,
           conv = [Conv2d 16 16 3 1 1 16 False, BatchNorm2d 16, ReLU6 True,
                   Conv2d 16 16 1 1 0 1 False, BatchNorm2d 16] \<rparr>"
    by (simp add: InvertedResidual_init_def py_round_def)
  from InvertedResidual_identity_flag [OF c, of "\<lambda>ls x. 2 * x" "5 :: int"]
  show ?thesis using c by simp
qed

text \<open>
  C5. For every width multiplier, the network is built and the output channel count of
  its final projection is the channel rounding of \<open>1280 \<times> width_mult\<close> when
  \<open>width_mult > 1\<close>, and exactly 1280 otherwise.
\<close>

theorem final_projection_channels:
  "\<exists>net r. MobileNetV2_init nc wm = Inr net \<and> last_out_channels (last_conv net) = Some r \<and>
     (if 1 < wm
      then make_divisible (1280 * wm) (if wm = 1 / 10 then 4 else 8) None = Inr r
      else r = 1280)"
proof -
  from MobileNetV2_init_shape [of nc wm] obtain net where
    net: "MobileNetV2_init nc wm = Inr net" and
    lc: "last_out_channels (last_conv net) =
      Some (if 1 < wm then rounded (1280 * wm) (if wm = 1 / 10 then 4 else 8) else 1280)"
    by (auto simp: conv_1x1_bn_def)
  have "make_divisible (1280 * wm) (if wm = 1 / 10 then 4 else 8) None =
      Inr (rounded (1280 * wm) (if wm = 1 / 10 then 4 else 8))"
    by (rule make_divisible_total) simp
  then show ?thesis using net lc by auto
qed

theorem final_projection_channels_witness:
  "(\<exists>net. MobileNetV2_init 1000 (3 / 2) = Inr net \<and> last_out_channels (last_conv net) = Some 1920) \<and>
   (\<exists>net. MobileNetV2_init 1000 1 = Inr net \<and> last_out_channels (last_conv net) = Some 1280)"
proof -
  have a: "make_divisible 1920 8 None = Inr 1920"
    by code_simp
  show ?thesis
    using final_projection_channels [of 1000 "3 / 2"] final_projection_channels [of 1000 1] a
    by auto
qed

text \<open>
  C6. For every configuration row \<open>(t, c, n, s)\<close> of either table the assembler
  instantiates exactly \<open>n\<close> inverted residual blocks, the first with the row's stride
  \<open>s\<close> and the others with stride 1; the first stage is the stem followed by the blocks
  of the first table, the second stage is the blocks of the second table; and every
  block takes as input channels the output channels of the block before it, across
  blocks and rows and from the first stage into the second (the first takes the stem's).
\<close>

theorem assembler_rows_and_threading:
  "\<exists>net stem. MobileNetV2_init nc wm = Inr net \<and>
     make_divisible (32 * wm) (if wm = 1 / 10 then 4 else 8) None = Inr stem \<and>
     features net = Sequential (conv_3x3_bn 3 stem 2) # map Block (blocks_of (features net)) \<and>
     features2 net = map Block (blocks_of (features2 net)) \<and>
     map observe (blocks_of (features net)) = concat (map (spec_row wm) cfgs1) \<and>
     map observe (blocks_of (features2 net)) = concat (map (spec_row wm) cfgs2) \<and>
     threaded stem (blocks_of (features net) @ blocks_of (features2 net))"
proof -
  define stem where "stem = rounded (32 * wm) (if wm = 1 / 10 then 4 else 8)"
  from MobileNetV2_init_shape [of nc wm] obtain net bs1 bs2 where
    net: "MobileNetV2_init nc wm = Inr net" and
    f1: "features net = Sequential (conv_3x3_bn 3 stem 2) # map Block bs1" and
    f2: "features2 net = map Block bs2" and
    o1: "map observe bs1 = concat (map (spec_row wm) cfgs1)" and
    o2: "map observe bs2 = concat (map (spec_row wm) cfgs2)" and
    th: "threaded stem (bs1 @ bs2)"
    unfolding stem_def by force
  have md: "make_divisible (32 * wm) (if wm = 1 / 10 then 4 else 8) None = Inr stem"
    unfolding stem_def by (rule make_divisible_total) simp
  have b1: "blocks_of (features net) = bs1" by (simp add: f1 blocks_of_map_Block)
  have b2: "blocks_of (features2 net) = bs2" by (simp add: f2 blocks_of_map_Block)
  have "features net = Sequential (conv_3x3_bn 3 stem 2) # map Block (blocks_of (features net))"
    and "features2 net = map Block (blocks_of (features2 net))"
    and "map observe (blocks_of (features net)) = concat (map (spec_row wm) cfgs1)"
    and "map observe (blocks_of (features2 net)) = concat (map (spec_row wm) cfgs2)"
    and "threaded stem (blocks_of (features net) @ blocks_of (features2 net))"
    using f1 f2 o1 o2 th unfolding b1 b2 by simp_all
  then show ?thesis using net md by blast
qed

theorem assembler_rows_and_threading_witness:
  "\<exists>net. MobileNetV2_init 1000 1 = Inr net \<and>
     map observe (blocks_of (features net)) =
       [(Some 1, Some 16),
        (Some 2, Some 24), (Some 1, Some 24),
        (Some 2, Some 32), (Some 1, Some 32), (Some 1, Some 32),
        (Some 2, Some 64), (Some 1, Some 64), (Some 1, Some 64), (Some 1, Some 64),
        (Some 1, Some 96), (Some 1, Some 96), (Some 1, Some 96)] \<and>
     map observe (blocks_of (features2 net)) =
       [(Some 2, Some 160), (Some 1, Some 160), (Some 1, Some 160), (Some 1, Some 320)] \<and>
     threaded 32 (blocks_of (features net) @ blocks_of (features2 net))"
proof -
  have r: "rounded 32 8 = 32" "rounded 16 8 = 16" "rounded 24 8 = 24"
    "rounded 64 8 = 64" "rounded 96 8 = 96" "rounded 160 8 = 160" "rounded 320 8 = 320"
    by code_simp+
  have m: "make_divisible 32 8 None = Inr 32"
    by code_simp
  have u: "[0..<4] = [0, 1, 2, 3]" "[0..<3] = [0, 1, 2]" "[0..<2] = [0, 1]"
    by (simp_all add: upt_rec)
  show ?thesis
    using assembler_rows_and_threading [of 1000 1] m
    by (auto simp: cfgs1_def cfgs2_def spec_row_def r u)
qed

text \<open>
  C7. When the width multiplier is exactly 0.1, the channel counts of the network (the
  stem, every block of every stage, and the final projection when its rounding is taken)
  are those of channel rounding with divisor 4; for any other width multiplier they are
  those of channel rounding with divisor 8.
\<close>

theorem divisor_switch:
  "\<exists>net. MobileNetV2_init nc wm = Inr net \<and>
     net_channels net = spec_channels (if wm = 1 / 10 then 4 else 8) wm"
proof -
  define d :: int where "d = (if wm = 1 / 10 then 4 else 8)"
  from MobileNetV2_init_shape [of nc wm] obtain net bs1 bs2 where
    net: "MobileNetV2_init nc wm = Inr net" and
    f1: "features net = Sequential (conv_3x3_bn 3 (rounded (32 * wm) d) 2) # map Block bs1" and
    f2: "features2 net = map Block bs2" and
    lc: "last_out_channels (last_conv net) =
           Some (if 1 < wm then rounded (1280 * wm) d else 1280)" and
    o1: "map observe bs1 = concat (map (spec_row wm) cfgs1)" and
    o2: "map observe bs2 = concat (map (spec_row wm) cfgs2)"
    unfolding d_def by (force simp: conv_1x1_bn_def)
  have st: "stem_channels net = Some (rounded (32 * wm) d)"
    by (simp add: stem_channels_def f1 conv_3x3_bn_def)
  have "map (\<lambda>b. last_out_channels (conv b)) (bs1 @ bs2) =
      map snd (concat (map (spec_row wm) (cfgs1 @ cfgs2)))"
    using o1 o2 by (simp add: observe_snd)
  also have "\<dots> = concat (map (\<lambda>(t, c, n, s). replicate (nat n)
      (Some (rounded (of_int c * wm) d))) (cfgs1 @ cfgs2))"
    unfolding d_def by (rule spec_row_snd)
  finally have bl: "map (\<lambda>b. last_out_channels (conv b)) (bs1 @ bs2) =
      concat (map (\<lambda>(t, c, n, s). replicate (nat n)
      (Some (rounded (of_int c * wm) d))) (cfgs1 @ cfgs2))" .
  have "net_channels net = spec_channels d wm"
    unfolding net_channels_def spec_channels_def
    using st bl lc by (simp add: f1 f2 blocks_of_map_Block)
  then show ?thesis using net unfolding d_def by blast
qed

theorem divisor_switch_witness:
  "\<exists>net. MobileNetV2_init 1000 (1 / 10) = Inr net \<and>
     net_channels net =
       (Some 4, map Some [4, 4, 4, 4, 4, 4, 8, 8, 8, 8, 12, 12, 12, 16, 16, 16, 32], Some 1280)"
proof -
  have r: "rounded (16 / 5) 4 = 4" "rounded (8 / 5) 4 = 4"
    "rounded (12 / 5) 4 = 4" "rounded (32 / 5) 4 = 8"
    "rounded (48 / 5) 4 = 12" "rounded 16 4 = 16" "rounded 32 4 = 32"
    by code_simp+
  show ?thesis
    using divisor_switch [of 1000 "1 / 10"]
    by (simp add: spec_channels_def cfgs1_def cfgs2_def r numeral_eq_Suc)
qed

text \<open>
  C8. Constructing an inverted residual block with a stride other than 1 or 2 raises the
  assertion error, and the error aborts the assembly: with a table in which a row that
  builds a block has such a stride, the assembler returns the error and no network.
  With a stride of 1 or 2 the constructor returns a block; with tables whose rows all
  build no block or have stride 1 or 2 the assembler returns a network, as it does with
  the tables of the source.
\<close>

theorem stride_precondition:
  "(\<not> (stride = 1 \<or> stride = 2) \<longrightarrow>
      InvertedResidual_init inp oup stride t = Inl AssertionError) \<and>
   (stride = 1 \<or> stride = 2 \<longrightarrow> (\<exists>b. InvertedResidual_init inp oup stride t = Inr b)) \<and>
   (\<not> list_all row_ok (tbl1 @ tbl2) \<longrightarrow>
      MobileNetV2_assemble tbl1 tbl2 nc wm = Inl AssertionError) \<and>
   (list_all row_ok (tbl1 @ tbl2) \<longrightarrow> (\<exists>net. MobileNetV2_assemble tbl1 tbl2 nc wm = Inr net)) \<and>
   (\<exists>net. MobileNetV2_init nc wm = Inr net)"
proof (intro conjI impI)
  assume "\<not> (stride = 1 \<or> stride = 2)"
  then show "InvertedResidual_init inp oup stride t = Inl AssertionError"
    by (rule InvertedResidual_init_bad_stride)
next
  assume "stride = 1 \<or> stride = 2"
  from InvertedResidual_init_ok [OF this, of inp oup t]
  show "\<exists>b. InvertedResidual_init inp oup stride t = Inr b" by blast
next
  assume "\<not> list_all row_ok (tbl1 @ tbl2)"
  then show "MobileNetV2_assemble tbl1 tbl2 nc wm = Inl AssertionError"
    by (rule MobileNetV2_assemble_bad_row)
next
  assume "list_all row_ok (tbl1 @ tbl2)"
  then have "list_all row_ok tbl1" "list_all row_ok tbl2" by simp_all
  from MobileNetV2_assemble_ok [OF this refl, of nc wm]
  show "\<exists>net. MobileNetV2_assemble tbl1 tbl2 nc wm = Inr net" by blast
next
  show "\<exists>net. MobileNetV2_init nc wm = Inr net" by (rule MobileNetV2_init_total)
qed

theorem stride_precondition_witness:
  "InvertedResidual_init 32 16 3 1 = Inl AssertionError \<and>
   (\<exists>b. InvertedResidual_init 32 16 2 1 = Inr b) \<and>
   MobileNetV2_assemble [(1, 16, 1, 1), (6, 24, 2, 3)] cfgs2 1000 1 = Inl AssertionError \<and>
   (\<exists>net. MobileNetV2_assemble cfgs1 cfgs2 1000 1 = Inr net)"
  using stride_precondition [of 3 32 16 1 "[(1, 16, 1, 1), (6, 24, 2, 3)]" cfgs2 1000 1]
    stride_precondition [of 2 32 16 1 cfgs1 cfgs2 1000 1]
  by (simp add: row_ok_def cfgs1_def cfgs2_def)

text \<open>
  C9. Two builds with the same width multiplier (whatever the other constructor
  argument) both succeed and have identical channel-count sequences and identical block
  counts. The number of inverted residual blocks is the sum of the repeat counts of both
  tables; the first stage holds the blocks of the first five of the seven rows and the
  second stage those of the remaining two.
\<close>

theorem assembler_deterministic:
  "\<exists>n1 n2. MobileNetV2_init nc1 wm = Inr n1 \<and> MobileNetV2_init nc2 wm = Inr n2 \<and>
     net_channels n1 = net_channels n2 \<and> block_count n1 = block_count n2 \<and>
     int (block_count n1) = sum_list (map (\<lambda>(t, c, n, s). n) (cfgs1 @ cfgs2)) \<and>
     length (cfgs1 @ cfgs2) = 7 \<and>
     map observe (blocks_of (features n1)) =
       concat (map (spec_row wm) (take 5 (cfgs1 @ cfgs2))) \<and>
     map observe (blocks_of (features2 n1)) =
       concat (map (spec_row wm) (drop 5 (cfgs1 @ cfgs2))) \<and>
     int (length (blocks_of (features n1))) =
       sum_list (map (\<lambda>(t, c, n, s). n) (take 5 (cfgs1 @ cfgs2))) \<and>
     int (length (blocks_of (features2 n1))) =
       sum_list (map (\<lambda>(t, c, n, s). n) (drop 5 (cfgs1 @ cfgs2)))"
proof -
  from MobileNetV2_init_shape [of nc1 wm] obtain net bs1 bs2 where
    net: "MobileNetV2_init nc1 wm = Inr net" and
    f1: "blocks_of (features net) = bs1" and
    f2: "blocks_of (features2 net) = bs2" and
    o1: "map observe bs1 = concat (map (spec_row wm) cfgs1)" and
    o2: "map observe bs2 = concat (map (spec_row wm) cfgs2)"
    by (force simp: blocks_of_map_Block)
  have same: "MobileNetV2_init nc2 wm = Inr net"
    using net by (simp add: MobileNetV2_init_def MobileNetV2_assemble_def)
  have tk: "take 5 (cfgs1 @ cfgs2) = cfgs1" "drop 5 (cfgs1 @ cfgs2) = cfgs2"
    by (simp_all add: cfgs1_def)
  have "int (length (map observe bs1)) = sum_list (map (\<lambda>(t, c, n, s). max 0 n) cfgs1)"
    unfolding o1 by (rule length_spec_rows)
  then have l1: "int (length bs1) = sum_list (map (\<lambda>(t, c, n, s). n) cfgs1)"
    by (simp add: cfgs1_def)
  have "int (length (map observe bs2)) = sum_list (map (\<lambda>(t, c, n, s). max 0 n) cfgs2)"
    unfolding o2 by (rule length_spec_rows)
  then have l2: "int (length bs2) = sum_list (map (\<lambda>(t, c, n, s). n) cfgs2)"
    by (simp add: cfgs2_def)
  have cnt: "int (block_count net) = sum_list (map (\<lambda>(t, c, n, s). n) (cfgs1 @ cfgs2))"
    using l1 l2 by (simp add: block_count_def f1 f2)
  have len: "length (cfgs1 @ cfgs2) = 7" by (simp add: cfgs1_def cfgs2_def)
  have "net_channels net = net_channels net" and "block_count net = block_count net"
    and "map observe (blocks_of (features net)) =
       concat (map (spec_row wm) (take 5 (cfgs1 @ cfgs2)))"
    and "map observe (blocks_of (features2 net)) =
       concat (map (spec_row wm) (drop 5 (cfgs1 @ cfgs2)))"
    and "int (length (blocks_of (features net))) =
       sum_list (map (\<lambda>(t, c, n, s). n) (take 5 (cfgs1 @ cfgs2)))"
    and "int (length (blocks_of (features2 net))) =
       sum_list (map (\<lambda>(t, c, n, s). n) (drop 5 (cfgs1 @ cfgs2)))"
    using o1 o2 l1 l2 unfolding tk f1 f2 by simp_all
  then show ?thesis using net same cnt len by blast
qed

theorem assembler_deterministic_witness:
  "\<exists>n1 n2. MobileNetV2_init 1000 1 = Inr n1 \<and> MobileNetV2_init 10 1 = Inr n2 \<and>
     net_channels n1 = net_channels n2 \<and> block_count n1 = 17 \<and> block_count n2 = 17 \<and>
     length (blocks_of (features n1)) = 13 \<and> length (blocks_of (features2 n1)) = 4"
  using assembler_deterministic [of 1000 1 10]
  by (auto simp: cfgs1_def cfgs2_def)

section \<open>Properties of the remapping loops\<close>










section \<open>Claims about the pretrained loader\<close>

text \<open>
  C3 (the source does otherwise). Called without a source locator, absent or empty, the
  loader builds the model and then raises; what it raises is the \<^verbatim>\<open>NameError\<close> of
  the unbound name \<^verbatim>\<open>pretrained\<close>, not the exception whose message echoes the
  offending value, which is never made.
\<close>

theorem missing_source_raises_NameError:
  "mobilenetv2 file_globals load_url shape state_dict0 (mnv2_model_init None) =
     Inl (NameError ''pretrained'') \<and>
   mobilenetv2 file_globals load_url shape state_dict0 (mnv2_model_init (Some [])) =
     Inl (NameError ''pretrained'')"
proof -
  obtain model where "MobileNetV2_init 1000 1 = Inr model"
    using MobileNetV2_init_total by blast
  then show ?thesis
    by (simp add: mobilenetv2_def mnv2_model_init_def and_then_def lookup_global_def
        file_globals_def)
qed




text \<open>
  C10. The class of the loader names the base \<^verbatim>\<open>nn.module\<close>. When the namespace of
  \<^verbatim>\<open>torch.nn\<close> has no attribute \<^verbatim>\<open>module\<close>, executing the class statements of the
  file raises \<^verbatim>\<open>AttributeError\<close>, so every use of the pretrained loading path ends
  in that error, whatever the source locator, the checkpoint and the parameters are:
  neither the check for a missing source nor the remapping is reached.
\<close>

theorem loader_class_never_defined:
  assumes "nn ''module'' = None"
  shows "class_statements nn =
           Inl (AttributeError (if nn ''Module'' = None then ''Module'' else ''module'')) \<and>
         pretrained_loading_path nn scope load_url shape state_dict0 p =
           Inl (AttributeError (if nn ''Module'' = None then ''Module'' else ''module''))"
  using assms
  by (auto simp: class_statements_def pretrained_loading_path_def getattr_nn_def and_then_def
      split: option.splits)

theorem loader_class_never_defined_witness:
  "pretrained_loading_path
     (map_of [(''Module'', ()), (''Sequential'', ()), (''Conv2d'', ()), (''BatchNorm2d'', ()),
              (''ReLU6'', ()), (''Linear'', ())])
     file_globals
     (\<lambda>url. Inr [(''features.0.0.weight'', 1 :: nat)])
     (\<lambda>v. [])
     [(''features.0.0.weight'', 0)]
     (Some ''url'') = Inl (AttributeError ''module'')"
  using loader_class_never_defined [of
      "map_of [(''Module'', ()), (''Sequential'', ()), (''Conv2d'', ()), (''BatchNorm2d'', ()),
               (''ReLU6'', ()), (''Linear'', ())]"
      file_globals "\<lambda>url. Inr [(''features.0.0.weight'', 1 :: nat)]" "\<lambda>v. []"
      "[(''features.0.0.weight'', 0)]" "Some ''url''"]
  by simp

end
